theory Spec2Isabelle
  imports Complex_Main "HOL-Library.Multiset"
begin

section \<open>Hill climbing for the travelling salesman: the search engine of TSP2.0.py\<close>

text \<open>
  The script keeps its run state in module-level variables and mutates them from the
  animation callback \<open>update\<close> and from the button callback \<open>restart\<close>. Here the
  variables are the fields of one record, and both callbacks take the record and return
  the new one. The two calls into numpy's random generator are inputs of the model: the
  pair of positions that \<open>np.random.choice(len(r), 2, replace=False)\<close> returns, and the
  list that \<open>np.random.permutation(N)\<close> returns. The city table is a parameter too, with
  \<open>N\<close> its length. Distances are real numbers: the rounding of double-precision
  arithmetic is not modelled. The plotting code of \<open>update\<close> reads the state and writes
  none of it, and is left out.
\<close>

subsection \<open>Data\<close>

type_synonym city = "real \<times> real"

datatype py_error = IndexError | ValueError

record run_state =
  current :: "nat list"
  current_dist :: real
  best_dist :: real
  distance_history :: "real list"
  iteration :: nat
  stuck_counter :: nat
  is_global :: bool
  local_optima_distances :: "real list"

definition STUCK_THRESHOLD :: nat where
  "STUCK_THRESHOLD = 50"

text \<open>The absolute tolerance \<open>1e-6\<close> of the registry test.\<close>

definition tolerance :: real where
  "tolerance = 1 / 1000000"

datatype status = Improving | Searching | GlobalOptimum | LocalOptimum

subsection \<open>Tour length\<close>

text \<open>\<open>np.linalg.norm(a - b)\<close> for two points of the plane.\<close>

definition linalg_norm :: "city \<Rightarrow> city \<Rightarrow> real" where
  "linalg_norm a b = sqrt ((fst a - fst b)\<^sup>2 + (snd a - snd b)\<^sup>2)"

text \<open>\<open>cities[k]\<close>: a row index past the table raises IndexError.\<close>

definition city_at :: "city list \<Rightarrow> nat \<Rightarrow> py_error + city" where
  "city_at cities k = (if k < length cities then Inr (cities ! k) else Inl IndexError)"

text \<open>
  The loop of \<open>total_distance\<close> over \<open>range(len(route))\<close>, with the accumulator \<open>d\<close>.
  Every \<open>i\<close> it visits is below \<open>len(route)\<close>, and so is \<open>(i+1) % len(route)\<close>.
\<close>

fun total_distance_loop :: "city list \<Rightarrow> nat list \<Rightarrow> nat list \<Rightarrow> real \<Rightarrow> py_error + real" where
  "total_distance_loop cities route [] d = Inr d"
| "total_distance_loop cities route (i # is) d =
     (case city_at cities (route ! i) of
        Inl e \<Rightarrow> Inl e
      | Inr a \<Rightarrow>
          (case city_at cities (route ! ((i + 1) mod length route)) of
             Inl e \<Rightarrow> Inl e
           | Inr b \<Rightarrow> total_distance_loop cities route is (d + linalg_norm a b)))"

definition total_distance :: "city list \<Rightarrow> nat list \<Rightarrow> py_error + real" where
  "total_distance cities route = total_distance_loop cities route [0..<length route] 0"

subsection \<open>The move\<close>

text \<open>
  What \<open>np.random.choice(n, 2, replace=False)\<close> can return: two distinct positions below
  \<open>n\<close>. With \<open>n < 2\<close> the call raises ValueError.
\<close>

definition valid_draw :: "nat \<Rightarrow> nat \<times> nat \<Rightarrow> bool" where
  "valid_draw n draw = (fst draw < n \<and> snd draw < n \<and> fst draw \<noteq> snd draw)"

text \<open>
  \<open>two_opt_swap\<close>: the drawn pair is sorted into \<open>i, j\<close> and the slice \<open>r[i:j+1]\<close> is
  replaced by its reversal.
\<close>

definition two_opt_swap :: "nat list \<Rightarrow> nat \<times> nat \<Rightarrow> py_error + nat list" where
  "two_opt_swap route draw =
     (if length route < 2 then Inl ValueError
      else
        let i = min (fst draw) (snd draw);
            j = max (fst draw) (snd draw)
        in Inr (take i route @ rev (take (j + 1 - i) (drop i route)) @ drop (j + 1) route))"

subsection \<open>One frame\<close>

text \<open>
  The body of the \<open>for\<close> loop of \<open>update\<close>, on the state and the local flag \<open>improved\<close>.
\<close>

definition candidate :: "city list \<Rightarrow> nat \<times> nat \<Rightarrow> run_state \<times> bool \<Rightarrow> py_error + run_state \<times> bool" where
  "candidate cities draw sb =
     (case two_opt_swap (current (fst sb)) draw of
        Inl e \<Rightarrow> Inl e
      | Inr neighbor \<Rightarrow>
          (case total_distance cities neighbor of
             Inl e \<Rightarrow> Inl e
           | Inr nd \<Rightarrow>
               if nd < current_dist (fst sb) then
                 let s1 = (fst sb)\<lparr>current := neighbor, current_dist := nd, stuck_counter := 0\<rparr>
                 in Inr (if current_dist s1 < best_dist s1
                         then s1\<lparr>best_dist := current_dist s1, is_global := False\<rparr>
                         else s1, True)
               else Inr ((fst sb)\<lparr>stuck_counter := stuck_counter (fst sb) + 1\<rparr>, snd sb)))"

text \<open>The loop, one draw per round; an exception ends it.\<close>

fun batch :: "city list \<Rightarrow> (nat \<times> nat) list \<Rightarrow> run_state \<times> bool \<Rightarrow> py_error + run_state \<times> bool" where
  "batch cities [] sb = Inr sb"
| "batch cities (draw # draws) sb =
     (case candidate cities draw sb of
        Inl e \<Rightarrow> Inl e
      | Inr sb' \<Rightarrow> batch cities draws sb')"

text \<open>
  The first \<open>k\<close> rounds of the loop, with \<open>improved = False\<close> before it; \<open>rnd k\<close> is
  the pair drawn in round \<open>k\<close>. \<open>for _ in range(10)\<close> is all ten rounds.
\<close>

definition update_rounds :: "city list \<Rightarrow> (nat \<Rightarrow> nat \<times> nat) \<Rightarrow> nat \<Rightarrow> run_state \<Rightarrow> py_error + run_state \<times> bool" where
  "update_rounds cities rnd k s = batch cities (map rnd [0..<k]) (s, False)"

definition update_batch :: "city list \<Rightarrow> (nat \<Rightarrow> nat \<times> nat) \<Rightarrow> run_state \<Rightarrow> py_error + run_state \<times> bool" where
  "update_batch cities rnd s = update_rounds cities rnd 10 s"

text \<open>
  What a round computes before it decides: \<open>nd\<close>, the length of the neighbour drawn. The
  round accepts when \<open>nd < current_dist\<close>, the branch that sets \<open>stuck_counter[0] = 0\<close>, and
  rejects otherwise, the branch that adds 1 to it.
\<close>

definition candidate_dist :: "city list \<Rightarrow> nat \<times> nat \<Rightarrow> nat list \<Rightarrow> py_error + real" where
  "candidate_dist cities draw route =
     (case two_opt_swap route draw of
        Inl e \<Rightarrow> Inl e
      | Inr neighbor \<Rightarrow> total_distance cities neighbor)"

definition accepted :: "city list \<Rightarrow> nat \<times> nat \<Rightarrow> run_state \<Rightarrow> bool" where
  "accepted cities draw s =
     (case candidate_dist cities draw (current s) of
        Inl e \<Rightarrow> False
      | Inr nd \<Rightarrow> nd < current_dist s)"

definition rejected :: "city list \<Rightarrow> nat \<times> nat \<Rightarrow> run_state \<Rightarrow> bool" where
  "rejected cities draw s =
     (case candidate_dist cities draw (current s) of
        Inl e \<Rightarrow> False
      | Inr nd \<Rightarrow> \<not> nd < current_dist s)"

text \<open>The test that guards \<open>local_optima_distances.append\<close>.\<close>

definition is_new_optimum :: "real list \<Rightarrow> real \<Rightarrow> bool" where
  "is_new_optimum registry d =
     (registry = [] \<or> \<not> list_ex (\<lambda>x. \<bar>d - x\<bar> < tolerance) registry)"

text \<open>
  The rest of \<open>update\<close> that writes the state: the iteration counter, the history, and
  the stuck check with its two tests, the classification before the insertion.
\<close>

definition finish_step :: "run_state \<Rightarrow> run_state" where
  "finish_step s =
     (let s1 = s\<lparr>iteration := iteration s + 1,
                 distance_history := distance_history s @ [current_dist s]\<rparr>
      in if stuck_counter s1 \<ge> STUCK_THRESHOLD then
           let s2 = (if local_optima_distances s1 = []
                        \<or> current_dist s1 < min_list (local_optima_distances s1)
                     then s1\<lparr>is_global := True\<rparr>
                     else s1\<lparr>is_global := False\<rparr>)
           in if is_new_optimum (local_optima_distances s2) (current_dist s2)
              then s2\<lparr>local_optima_distances := local_optima_distances s2 @ [current_dist s2]\<rparr>
              else s2
         else s1)"

definition update :: "city list \<Rightarrow> (nat \<Rightarrow> nat \<times> nat) \<Rightarrow> run_state \<Rightarrow> py_error + run_state" where
  "update cities rnd s =
     (case update_batch cities rnd s of
        Inl e \<Rightarrow> Inl e
      | Inr sb \<Rightarrow> Inr (finish_step (fst sb)))"

text \<open>Several frames in a row, one random source per frame.\<close>

fun updates :: "city list \<Rightarrow> (nat \<Rightarrow> nat \<times> nat) list \<Rightarrow> run_state \<Rightarrow> py_error + run_state" where
  "updates cities [] s = Inr s"
| "updates cities (rnd # rnds) s =
     (case update cities rnd s of
        Inl e \<Rightarrow> Inl e
      | Inr s' \<Rightarrow> updates cities rnds s')"

subsection \<open>Status, start and restart\<close>

text \<open>
  \<open>get_status\<close>: the first component of the tuple it returns. The label and the two
  colours that follow it are fixed by that component (the label of \<open>searching\<close> also shows
  the counter).
\<close>

definition get_status :: "run_state \<Rightarrow> status" where
  "get_status s =
     (if stuck_counter s = 0 then Improving
      else if stuck_counter s < STUCK_THRESHOLD then Searching
      else if is_global s then GlobalOptimum
      else LocalOptimum)"

text \<open>The module-level initialisation, from the permutation \<open>p\<close> that numpy returned.\<close>

definition init_state :: "city list \<Rightarrow> nat list \<Rightarrow> py_error + run_state" where
  "init_state cities p =
     (case total_distance cities p of
        Inl e \<Rightarrow> Inl e
      | Inr d \<Rightarrow>
          Inr \<lparr>current = p, current_dist = d, best_dist = d, distance_history = [d],
               iteration = 0, stuck_counter = 0, is_global = False,
               local_optima_distances = []\<rparr>)"

text \<open>\<open>restart\<close>, from the permutation \<open>p\<close> that numpy returned.\<close>

definition restart :: "city list \<Rightarrow> nat list \<Rightarrow> run_state \<Rightarrow> py_error + run_state" where
  "restart cities p s =
     (case total_distance cities p of
        Inl e \<Rightarrow> Inl e
      | Inr d \<Rightarrow>
          Inr (s\<lparr>current := p, current_dist := d, distance_history := [d],
                 iteration := 0, stuck_counter := 0\<rparr>))"

text \<open>The four corners of the unit square, in the order \<open>(0,0), (0,1), (1,1), (1,0)\<close>.\<close>

definition unit_square :: "city list" where
  "unit_square = [(0, 0), (0, 1), (1, 1), (1, 0)]"

text \<open>
  The property of the registry that the guarded insertion is there to keep: two entries at
  different positions are at least the tolerance apart.
\<close>

definition registry_apart :: "real list \<Rightarrow> bool" where
  "registry_apart xs = (\<forall>i j. i < j \<and> j < length xs \<longrightarrow> tolerance \<le> \<bar>xs ! i - xs ! j\<bar>)"

text \<open>
  The states the program can be in: the initial one, and those that \<open>update\<close> and
  \<open>restart\<close> make from a reachable one, with numpy's results as they can be.
\<close>

inductive reachable :: "city list \<Rightarrow> run_state \<Rightarrow> bool" for cities where
  reach_init: "mset p = mset [0..<length cities] \<Longrightarrow> init_state cities p = Inr s
     \<Longrightarrow> reachable cities s"
| reach_update: "reachable cities s
     \<Longrightarrow> (\<forall>k<10. valid_draw (length (current s)) (rnd k))
     \<Longrightarrow> update cities rnd s = Inr s' \<Longrightarrow> reachable cities s'"
| reach_restart: "reachable cities s \<Longrightarrow> mset p = mset [0..<length cities]
     \<Longrightarrow> restart cities p s = Inr s' \<Longrightarrow> reachable cities s'"

section \<open>Properties\<close>

subsection \<open>The classifier\<close>

text \<open>
  C8. The status is one of the four values and is a function of \<open>stuck_counter\<close> and
  \<open>is_global\<close> alone: improving exactly when the counter is 0, searching exactly when it
  is between 0 and the threshold, and at or above the threshold the global optimum
  exactly when \<open>is_global\<close> is set, the local optimum exactly when it is not.
\<close>

theorem get_status_classifier:
  "(get_status s = Improving) = (stuck_counter s = 0)
   \<and> (get_status s = Searching) = (0 < stuck_counter s \<and> stuck_counter s < STUCK_THRESHOLD)
   \<and> (get_status s = GlobalOptimum) = (STUCK_THRESHOLD \<le> stuck_counter s \<and> is_global s)
   \<and> (get_status s = LocalOptimum) = (STUCK_THRESHOLD \<le> stuck_counter s \<and> \<not> is_global s)
   \<and> STUCK_THRESHOLD = 50"
  by (auto simp: get_status_def STUCK_THRESHOLD_def)

subsection \<open>The move and the tour length\<close>

lemma two_opt_swap_mset: "two_opt_swap route draw = Inr r \<Longrightarrow> mset r = mset route"
proof -
  assume h: "two_opt_swap route draw = Inr r"
  define i where "i = min (fst draw) (snd draw)"
  define j where "j = max (fst draw) (snd draw)"
  have ij: "i \<le> j" by (simp add: i_def j_def)
  from h have r: "r = take i route @ rev (take (j + 1 - i) (drop i route)) @ drop (j + 1) route"
    by (simp add: two_opt_swap_def i_def j_def Let_def split: if_splits)
  have d: "drop (j + 1) route = drop (j + 1 - i) (drop i route)" using ij by simp
  have "mset r = mset (take i route) + (mset (take (j + 1 - i) (drop i route)) + mset (drop (j + 1 - i) (drop i route)))"
    unfolding r d by simp
  also have "\<dots> = mset (take i route) + mset (drop i route)"
    by (simp only: union_code append_take_drop_id)
  also have "\<dots> = mset route"
    by (simp only: union_code append_take_drop_id)
  finally show ?thesis .
qed

lemma two_opt_swap_total: "2 \<le> length route \<Longrightarrow> \<exists>r. two_opt_swap route draw = Inr r"
  by (simp add: two_opt_swap_def Let_def)

lemma total_distance_loop_total:
  "\<forall>k\<in>set route. k < length cities \<Longrightarrow> \<forall>i\<in>set is. i < length route
   \<Longrightarrow> \<exists>x. total_distance_loop cities route is d = Inr x"
proof (induction "is" arbitrary: d)
  case Nil
  then show ?case by simp
next
  case (Cons i "is")
  have i: "i < length route" using Cons.prems(2) by simp
  then have a: "route ! i < length cities" using Cons.prems(1) by simp
  have "0 < length route" using i by linarith
  then have "(i + 1) mod length route < length route" by (rule mod_less_divisor)
  then have b: "route ! ((i + 1) mod length route) < length cities" using Cons.prems(1) by simp
  show ?case using a b Cons.IH[OF Cons.prems(1)] Cons.prems(2) by (simp add: city_at_def)
qed

lemma total_distance_total:
  "\<forall>k\<in>set route. k < length cities \<Longrightarrow> \<exists>x. total_distance cities route = Inr x"
  unfolding total_distance_def by (rule total_distance_loop_total) auto

lemma total_distance_perm:
  assumes "mset route = mset [0..<length cities]"
  shows "\<exists>x. total_distance cities route = Inr x"
proof (rule total_distance_total)
  have "set route = set [0..<length cities]" using assms by (rule mset_eq_setD)
  then show "\<forall>k\<in>set route. k < length cities" by simp
qed

subsection \<open>Rounds and frames\<close>

lemma candidate_Inr:
  assumes "candidate cities draw (s, b) = Inr (s', b')"
  obtains nd where "candidate_dist cities draw (current s) = Inr nd"
proof -
  from assms obtain nb where nb: "two_opt_swap (current s) draw = Inr nb"
    by (auto simp: candidate_def split: sum.splits)
  with assms obtain nd where "total_distance cities nb = Inr nd"
    by (auto simp: candidate_def split: sum.splits)
  with nb have "candidate_dist cities draw (current s) = Inr nd"
    by (simp add: candidate_dist_def)
  then show ?thesis by (rule that)
qed

lemma candidate_rejected:
  "rejected cities draw s \<Longrightarrow>
   candidate cities draw (s, b) = Inr (s\<lparr>stuck_counter := stuck_counter s + 1\<rparr>, b)"
  by (auto simp: rejected_def candidate_dist_def candidate_def split: sum.splits)

lemma candidate_accepted:
  assumes "accepted cities draw s"
  shows "\<exists>s'. candidate cities draw (s, b) = Inr (s', True) \<and> stuck_counter s' = 0
     \<and> current_dist s' < current_dist s
     \<and> candidate_dist cities draw (current s) = Inr (current_dist s')"
  using assms
  by (auto simp: accepted_def candidate_dist_def candidate_def Let_def split: sum.splits)

lemma candidate_decides:
  "candidate cities draw (s, b) = Inr (s', b') \<Longrightarrow> accepted cities draw s \<noteq> rejected cities draw s"
  by (erule candidate_Inr) (simp add: accepted_def rejected_def)

lemma candidate_fields:
  assumes "candidate cities draw (s, b) = Inr (s', b')"
  shows "current_dist s' \<le> current_dist s"
    and "best_dist s' \<le> best_dist s"
    and "local_optima_distances s' = local_optima_distances s"
    and "distance_history s' = distance_history s"
    and "iteration s' = iteration s"
    and "mset (current s') = mset (current s)"
    and "b' = (b \<or> current_dist s' < current_dist s)"
    and "b' = (b \<or> accepted cities draw s)"
  using assms
  by (auto simp: candidate_def accepted_def candidate_dist_def Let_def two_opt_swap_mset
      split: sum.splits if_splits)

lemma batch_fields:
  "batch cities draws (s, b) = Inr (s', b') \<Longrightarrow>
     current_dist s' \<le> current_dist s
   \<and> best_dist s' \<le> best_dist s
   \<and> local_optima_distances s' = local_optima_distances s
   \<and> distance_history s' = distance_history s
   \<and> iteration s' = iteration s
   \<and> mset (current s') = mset (current s)
   \<and> b' = (b \<or> current_dist s' < current_dist s)"
proof (induction draws arbitrary: s b)
  case Nil
  then show ?case by simp
next
  case (Cons d ds)
  from Cons.prems obtain s1 b1 where
    c: "candidate cities d (s, b) = Inr (s1, b1)" and r: "batch cities ds (s1, b1) = Inr (s', b')"
    by (auto split: sum.splits)
  note f = candidate_fields[OF c] and ih = Cons.IH[OF r]
  show ?case using f(1-7) ih by auto
qed

lemma batch_append:
  "batch cities (xs @ ys) sb =
     (case batch cities xs sb of Inl e \<Rightarrow> Inl e | Inr sb' \<Rightarrow> batch cities ys sb')"
  by (induction xs arbitrary: sb) (auto split: sum.splits)

lemma rejected_stuck:
  "rejected cities d (s\<lparr>stuck_counter := n\<rparr>) = rejected cities d s"
  by (simp add: rejected_def split: sum.splits)

lemma batch_all_rejected:
  "\<forall>d\<in>set draws. rejected cities d s \<Longrightarrow>
   batch cities draws (s, b) = Inr (s\<lparr>stuck_counter := stuck_counter s + length draws\<rparr>, b)"
proof (induction draws arbitrary: s)
  case Nil
  then show ?case by simp
next
  case (Cons d ds)
  have c: "candidate cities d (s, b) = Inr (s\<lparr>stuck_counter := stuck_counter s + 1\<rparr>, b)"
    using Cons.prems by (simp add: candidate_rejected)
  have "\<forall>x\<in>set ds. rejected cities x (s\<lparr>stuck_counter := stuck_counter s + 1\<rparr>)"
    using Cons.prems by (simp add: rejected_stuck)
  from Cons.IH[OF this] c show ?case by simp
qed

lemma update_rounds_0: "update_rounds cities rnd 0 s = Inr (s, False)"
  by (simp add: update_rounds_def)

lemma update_rounds_Suc:
  "update_rounds cities rnd (Suc k) s =
     (case update_rounds cities rnd k s of Inl e \<Rightarrow> Inl e | Inr sb \<Rightarrow> candidate cities (rnd k) sb)"
  by (simp add: update_rounds_def batch_append split: sum.splits)

lemma update_rounds_split:
  assumes "k \<le> n"
  shows "update_rounds cities rnd n s =
     (case update_rounds cities rnd k s of Inl e \<Rightarrow> Inl e
      | Inr sb \<Rightarrow> batch cities (map rnd [k..<n]) sb)"
proof -
  have "[0..<n] = [0..<k] @ [k..<n]" using assms
    by (metis le_add_diff_inverse upt_add_eq_append zero_le)
  then show ?thesis by (simp add: update_rounds_def batch_append)
qed

lemma update_rounds_prefix:
  assumes "update_rounds cities rnd n s = Inr x" "k \<le> n"
  obtains sk bk where "update_rounds cities rnd k s = Inr (sk, bk)"
  using assms update_rounds_split[OF assms(2), of cities rnd s]
  by (cases "update_rounds cities rnd k s") auto

lemma candidate_total:
  assumes "mset (current s) = mset [0..<length cities]" "2 \<le> length cities"
  shows "\<exists>sb'. candidate cities draw (s, b) = Inr sb'"
proof -
  have "size (mset (current s)) = size (mset [0..<length cities])" using assms(1) by simp
  then have "2 \<le> length (current s)" using assms(2) by simp
  then obtain nb where nb: "two_opt_swap (current s) draw = Inr nb"
    using two_opt_swap_total by blast
  then have "mset nb = mset [0..<length cities]" using assms(1) two_opt_swap_mset by metis
  then obtain nd where "total_distance cities nb = Inr nd" using total_distance_perm by blast
  with nb show ?thesis by (auto simp: candidate_def Let_def)
qed

lemma batch_total:
  "mset (current s) = mset [0..<length cities] \<Longrightarrow> 2 \<le> length cities
   \<Longrightarrow> \<exists>sb'. batch cities draws (s, b) = Inr sb'"
proof (induction draws arbitrary: s b)
  case Nil
  then show ?case by simp
next
  case (Cons d ds)
  from candidate_total[OF Cons.prems] obtain s1 b1
    where c: "candidate cities d (s, b) = Inr (s1, b1)" by fastforce
  have "mset (current s1) = mset [0..<length cities]"
    using candidate_fields(6)[OF c] Cons.prems(1) by simp
  from Cons.IH[OF this Cons.prems(2)] c show ?case by simp
qed

lemma update_total:
  "mset (current s) = mset [0..<length cities] \<Longrightarrow> 2 \<le> length cities
   \<Longrightarrow> \<exists>s'. update cities rnd s = Inr s'"
  using batch_total[of s cities "map rnd [0..<10]" False]
  by (auto simp: update_def update_batch_def update_rounds_def)

lemma finish_step_simps:
  "current (finish_step s) = current s"
  "current_dist (finish_step s) = current_dist s"
  "best_dist (finish_step s) = best_dist s"
  "stuck_counter (finish_step s) = stuck_counter s"
  "iteration (finish_step s) = iteration s + 1"
  "distance_history (finish_step s) = distance_history s @ [current_dist s]"
  by (simp_all add: finish_step_def Let_def)

lemma update_Inr:
  assumes "update cities rnd s = Inr s'"
  obtains sb improved where "update_batch cities rnd s = Inr (sb, improved)" "s' = finish_step sb"
  using assms by (auto simp: update_def split: sum.splits)

subsection \<open>A run on the unit square\<close>

text \<open>
  The tour \<open>0, 1, 2, 3\<close> goes round the square and has length 4; the tour \<open>0, 2, 1, 3\<close>
  uses both diagonals and has length \<open>2 + 2 * sqrt 2\<close>. Reversing positions 1 to 2 turns
  one into the other.
\<close>

lemma upt4: "[0..<4] = [0, 1, 2, 3]"
  by (simp add: upt_rec)

lemma td_0123: "total_distance unit_square [0, 1, 2, 3] = Inr 4"
  by (simp add: total_distance_def upt4 unit_square_def city_at_def linalg_norm_def)

lemma td_0213: "total_distance unit_square [0, 2, 1, 3] = Inr (2 + 2 * sqrt 2)"
  by (simp add: total_distance_def upt4 unit_square_def city_at_def linalg_norm_def)

lemma sq_lt: "(4::real) < 2 + 2 * sqrt 2"
proof -
  have "1 < sqrt 2" by simp
  then show ?thesis by simp
qed

lemma cd_a: "candidate_dist unit_square (1, 2) [0, 1, 2, 3] = Inr (2 + 2 * sqrt 2)"
  by (simp add: candidate_dist_def two_opt_swap_def total_distance_def upt4 unit_square_def
      city_at_def linalg_norm_def)

lemma cd_b: "candidate_dist unit_square (1, 2) [0, 2, 1, 3] = Inr 4"
  by (simp add: candidate_dist_def two_opt_swap_def total_distance_def upt4 unit_square_def
      city_at_def linalg_norm_def)

lemma rej:
  assumes "current s = [0, 1, 2, 3]" "current_dist s = 4"
  shows "rejected unit_square (1, 2) s"
  unfolding rejected_def assms cd_a using sq_lt by simp

lemma acc:
  assumes "current s = [0, 2, 1, 3]" "current_dist s = 2 + 2 * sqrt 2"
  shows "accepted unit_square (1, 2) s"
  unfolding accepted_def assms cd_b using sq_lt by simp

lemma update_all_rejected:
  assumes "\<forall>k<10. rejected cities (rnd k) s"
  shows "update cities rnd s = Inr (finish_step (s\<lparr>stuck_counter := stuck_counter s + 10\<rparr>))"
proof -
  have "\<forall>d\<in>set (map rnd [0..<10]). rejected cities d s" using assms by auto
  from batch_all_rejected[OF this, of False] show ?thesis
    by (simp add: update_def update_batch_def update_rounds_def)
qed

lemma update_accept_first:
  assumes c: "candidate cities (rnd 0) (s, False) = Inr (s1, b1)"
    and r: "\<forall>k. rejected cities (rnd k) s1"
  shows "update cities rnd s = Inr (finish_step (s1\<lparr>stuck_counter := stuck_counter s1 + 9\<rparr>))"
proof -
  have u1: "update_rounds cities rnd 1 s = Inr (s1, b1)"
    using c by (simp add: update_rounds_def)
  have "\<forall>d\<in>set (map rnd [1..<10]). rejected cities d s1" using r by auto
  from batch_all_rejected[OF this, of b1]
  have "batch cities (map rnd [1..<10]) (s1, b1) = Inr (s1\<lparr>stuck_counter := stuck_counter s1 + 9\<rparr>, b1)"
    by simp
  with u1 update_rounds_split[of 1 10 cities rnd s]
  show ?thesis by (simp add: update_def update_batch_def)
qed

lemma square_frame_stuck:
  assumes "current s = [0, 1, 2, 3]" "current_dist s = 4"
  shows "update unit_square (\<lambda>k. (1, 2)) s
     = Inr (finish_step (s\<lparr>stuck_counter := stuck_counter s + 10\<rparr>))"
  using rej[OF assms] by (intro update_all_rejected) blast

lemma square_init:
  "init_state unit_square [0, 2, 1, 3] =
     Inr \<lparr>current = [0, 2, 1, 3], current_dist = 2 + 2 * sqrt 2, best_dist = 2 + 2 * sqrt 2,
          distance_history = [2 + 2 * sqrt 2], iteration = 0, stuck_counter = 0,
          is_global = False, local_optima_distances = []\<rparr>"
  unfolding init_state_def td_0213 by simp

lemma square_first_candidate:
  "candidate unit_square (1, 2)
     (\<lparr>current = [0, 2, 1, 3], current_dist = 2 + 2 * sqrt 2, best_dist = 2 + 2 * sqrt 2,
          distance_history = [2 + 2 * sqrt 2], iteration = 0, stuck_counter = 0,
          is_global = False, local_optima_distances = []\<rparr>, False)
   = Inr (\<lparr>current = [0, 1, 2, 3], current_dist = 4, best_dist = 4,
          distance_history = [2 + 2 * sqrt 2], iteration = 0, stuck_counter = 0,
          is_global = False, local_optima_distances = []\<rparr>, True)"
proof -
  have sw: "two_opt_swap [0, 2, 1, 3] (1, 2) = Inr [0, 1, 2, 3]"
    by (simp add: two_opt_swap_def)
  show ?thesis unfolding candidate_def fst_conv snd_conv run_state.simps sw sum.case td_0123
    using sq_lt by (simp add: Let_def)
qed

lemma square_frame_1:
  "update unit_square (\<lambda>k. (1, 2))
     \<lparr>current = [0, 2, 1, 3], current_dist = 2 + 2 * sqrt 2, best_dist = 2 + 2 * sqrt 2,
          distance_history = [2 + 2 * sqrt 2], iteration = 0, stuck_counter = 0,
          is_global = False, local_optima_distances = []\<rparr>
   = Inr \<lparr>current = [0, 1, 2, 3], current_dist = 4, best_dist = 4,
          distance_history = [2 + 2 * sqrt 2, 4], iteration = 1, stuck_counter = 9,
          is_global = False, local_optima_distances = []\<rparr>"
  by (subst update_accept_first[OF square_first_candidate])
     (simp_all del: One_nat_def add: rej finish_step_def STUCK_THRESHOLD_def)

lemma square_frame_searching:
  assumes "n + 10 < 50"
  shows "update unit_square (\<lambda>k. (1, 2))
     \<lparr>current = [0, 1, 2, 3], current_dist = 4, best_dist = 4,
          distance_history = h, iteration = i, stuck_counter = n,
          is_global = g, local_optima_distances = r\<rparr>
   = Inr \<lparr>current = [0, 1, 2, 3], current_dist = 4, best_dist = 4,
          distance_history = h @ [4], iteration = i + 1, stuck_counter = n + 10,
          is_global = g, local_optima_distances = r\<rparr>"
  using assms by (subst square_frame_stuck) (simp_all add: finish_step_def STUCK_THRESHOLD_def)

lemma square_frame_first_stuck:
  assumes "50 \<le> n + 10"
  shows "update unit_square (\<lambda>k. (1, 2))
     \<lparr>current = [0, 1, 2, 3], current_dist = 4, best_dist = 4,
          distance_history = h, iteration = i, stuck_counter = n,
          is_global = g, local_optima_distances = []\<rparr>
   = Inr \<lparr>current = [0, 1, 2, 3], current_dist = 4, best_dist = 4,
          distance_history = h @ [4], iteration = i + 1, stuck_counter = n + 10,
          is_global = True, local_optima_distances = [4]\<rparr>"
  using assms by (subst square_frame_stuck)
    (simp_all add: finish_step_def STUCK_THRESHOLD_def is_new_optimum_def)

lemma square_frame_still_stuck:
  assumes "50 \<le> n + 10"
  shows "update unit_square (\<lambda>k. (1, 2))
     \<lparr>current = [0, 1, 2, 3], current_dist = 4, best_dist = 4,
          distance_history = h, iteration = i, stuck_counter = n,
          is_global = g, local_optima_distances = [4]\<rparr>
   = Inr \<lparr>current = [0, 1, 2, 3], current_dist = 4, best_dist = 4,
          distance_history = h @ [4], iteration = i + 1, stuck_counter = n + 10,
          is_global = False, local_optima_distances = [4]\<rparr>"
  using assms by (subst square_frame_stuck)
    (simp_all add: finish_step_def STUCK_THRESHOLD_def is_new_optimum_def tolerance_def)

lemma replicate_6: "replicate 6 x = [x, x, x, x, x, x]"
  by (simp add: eval_nat_numeral)

lemma square_run_6:
  "updates unit_square (replicate 6 (\<lambda>k. (1, 2)))
     \<lparr>current = [0, 2, 1, 3], current_dist = 2 + 2 * sqrt 2, best_dist = 2 + 2 * sqrt 2,
          distance_history = [2 + 2 * sqrt 2], iteration = 0, stuck_counter = 0,
          is_global = False, local_optima_distances = []\<rparr>
   = Inr \<lparr>current = [0, 1, 2, 3], current_dist = 4, best_dist = 4,
          distance_history = [2 + 2 * sqrt 2, 4, 4, 4, 4, 4, 4], iteration = 6,
          stuck_counter = 59, is_global = True, local_optima_distances = [4]\<rparr>"
  unfolding replicate_6
  by (simp del: One_nat_def
      add: square_frame_1 square_frame_searching square_frame_first_stuck)

lemma update_batch_fields:
  assumes "update_batch cities rnd s = Inr (sb, improved)"
  shows "current_dist sb \<le> current_dist s"
    and "best_dist sb \<le> best_dist s"
    and "local_optima_distances sb = local_optima_distances s"
    and "mset (current sb) = mset (current s)"
    and "improved = (current_dist sb < current_dist s)"
  using batch_fields[of cities "map rnd [0..<10]" s False sb improved] assms
  by (simp_all add: update_batch_def update_rounds_def)

lemma finish_step_stuck:
  assumes "STUCK_THRESHOLD \<le> stuck_counter s"
  shows "is_global (finish_step s)
       = (local_optima_distances s = [] \<or> current_dist s < min_list (local_optima_distances s))"
    and "local_optima_distances (finish_step s)
       = (if is_new_optimum (local_optima_distances s) (current_dist s)
          then local_optima_distances s @ [current_dist s] else local_optima_distances s)"
  using assms by (simp_all add: finish_step_def Let_def)

lemma finish_step_not_stuck:
  assumes "stuck_counter s < STUCK_THRESHOLD"
  shows "is_global (finish_step s) = is_global s"
    and "local_optima_distances (finish_step s) = local_optima_distances s"
  using assms by (simp_all add: finish_step_def Let_def)

lemma is_new_optimum_iff:
  "is_new_optimum registry d = (\<not> (\<exists>x\<in>set registry. \<bar>d - x\<bar> < tolerance))"
  by (auto simp: is_new_optimum_def list_ex_iff)

subsection \<open>The stuck check\<close>

text \<open>
  C3. Whenever a frame ends with \<open>stuck_counter\<close> at or above the threshold, whether the
  threshold was crossed in this frame or before it, \<open>is_global\<close> is set to exactly this:
  the registry is empty, or \<open>current_dist\<close> is below the least entry of the registry. The
  registry read is the one the frame started with, which the loop leaves alone: the
  classification comes before the insertion of this frame.
\<close>

theorem update_classifies_before_insert:
  assumes "update cities rnd s = Inr s'" and "STUCK_THRESHOLD \<le> stuck_counter s'"
  shows "is_global s'
       = (local_optima_distances s = []
          \<or> current_dist s' < Min (set (local_optima_distances s)))"
proof -
  from assms(1) obtain sb improved
    where b: "update_batch cities rnd s = Inr (sb, improved)" and s': "s' = finish_step sb"
    by (rule update_Inr)
  have st: "STUCK_THRESHOLD \<le> stuck_counter sb"
    using assms(2) by (simp add: s' finish_step_simps)
  have reg: "local_optima_distances sb = local_optima_distances s"
    using b by (rule update_batch_fields)
  have "is_global s'
      = (local_optima_distances s = [] \<or> current_dist s' < min_list (local_optima_distances s))"
    using finish_step_stuck(1)[OF st] by (simp add: s' reg finish_step_simps)
  then show ?thesis
    by (cases "local_optima_distances s = []") (simp_all add: min_list_Min)
qed

text \<open>
  C9. In such a frame \<open>current_dist\<close> is appended to the registry exactly when no entry
  of the registry is at a distance below \<open>1e-6\<close> from it; otherwise the registry stays as
  it is.
\<close>

theorem update_registers_new_optimum:
  assumes "update cities rnd s = Inr s'" and "STUCK_THRESHOLD \<le> stuck_counter s'"
  shows "local_optima_distances s'
       = (if \<exists>x\<in>set (local_optima_distances s). \<bar>current_dist s' - x\<bar> < 1 / 1000000
          then local_optima_distances s
          else local_optima_distances s @ [current_dist s'])"
proof -
  from assms(1) obtain sb improved
    where b: "update_batch cities rnd s = Inr (sb, improved)" and s': "s' = finish_step sb"
    by (rule update_Inr)
  have st: "STUCK_THRESHOLD \<le> stuck_counter sb"
    using assms(2) by (simp add: s' finish_step_simps)
  have reg: "local_optima_distances sb = local_optima_distances s"
    using b by (rule update_batch_fields)
  show ?thesis
    using finish_step_stuck(2)[OF st]
    by (simp add: s' reg finish_step_simps is_new_optimum_iff tolerance_def)
qed

text \<open>
  The frame after the one that registered the optimum 4 of the unit square: the registry
  is \<open>[4]\<close>, the tour still has length 4, and \<open>is_global\<close> goes from set to cleared.
\<close>

theorem update_classifies_before_insert_witness:
  "update unit_square (\<lambda>k. (1, 2))
     \<lparr>current = [0, 1, 2, 3], current_dist = 4, best_dist = 4,
      distance_history = [4], iteration = 6, stuck_counter = 59,
      is_global = True, local_optima_distances = [4]\<rparr>
   = Inr \<lparr>current = [0, 1, 2, 3], current_dist = 4, best_dist = 4,
      distance_history = [4, 4], iteration = 7, stuck_counter = 69,
      is_global = False, local_optima_distances = [4]\<rparr>
   \<and> STUCK_THRESHOLD \<le> 69
   \<and> False = ([4::real] = [] \<or> (4::real) < Min (set [4]))"
proof -
  have u: "update unit_square (\<lambda>k. (1, 2))
     \<lparr>current = [0, 1, 2, 3], current_dist = 4, best_dist = 4,
      distance_history = [4], iteration = 6, stuck_counter = 59,
      is_global = True, local_optima_distances = [4]\<rparr>
   = Inr \<lparr>current = [0, 1, 2, 3], current_dist = 4, best_dist = 4,
      distance_history = [4, 4], iteration = 7, stuck_counter = 69,
      is_global = False, local_optima_distances = [4]\<rparr>"
    using square_frame_still_stuck[of 59 "[4]" 6 True] by simp
  have st: "STUCK_THRESHOLD \<le> stuck_counter \<lparr>current = [0, 1, 2, 3], current_dist = 4, best_dist = 4,
      distance_history = [4, 4], iteration = 7, stuck_counter = 69,
      is_global = False, local_optima_distances = [4]\<rparr>"
    by (simp add: STUCK_THRESHOLD_def)
  from update_classifies_before_insert[OF u st] u st show ?thesis by simp
qed

lemma update_fields:
  assumes "update cities rnd s = Inr s'"
  shows "current_dist s' \<le> current_dist s"
    and "best_dist s' \<le> best_dist s"
    and "mset (current s') = mset (current s)"
proof -
  from assms obtain sb improved
    where b: "update_batch cities rnd s = Inr (sb, improved)" and s': "s' = finish_step sb"
    by (rule update_Inr)
  note f = update_batch_fields[OF b]
  show "current_dist s' \<le> current_dist s" using f(1) by (simp add: s' finish_step_simps)
  show "best_dist s' \<le> best_dist s" using f(2) by (simp add: s' finish_step_simps)
  show "mset (current s') = mset (current s)" using f(4) by (simp add: s' finish_step_simps)
qed

lemma updates_best_dist:
  "updates cities rnds s = Inr s' \<Longrightarrow> best_dist s' \<le> best_dist s"
proof (induction rnds arbitrary: s)
  case Nil
  then show ?case by simp
next
  case (Cons rnd rnds)
  from Cons.prems obtain s1 where
    u: "update cities rnd s = Inr s1" and r: "updates cities rnds s1 = Inr s'"
    by (auto split: sum.splits)
  have "best_dist s' \<le> best_dist s1" using r by (rule Cons.IH)
  also have "\<dots> \<le> best_dist s" using u by (rule update_fields)
  finally show ?case .
qed

subsection \<open>Descent\<close>

text \<open>
  C6. Without a restart in between, \<open>best_dist\<close> never goes up: it is no larger after a
  frame than before it, and so no larger after any number of frames in a row.
\<close>

theorem best_dist_non_increasing:
  "(update cities rnd s = Inr s' \<longrightarrow> best_dist s' \<le> best_dist s)
   \<and> (updates cities rnds s = Inr s'' \<longrightarrow> best_dist s'' \<le> best_dist s)"
  using update_fields(2)[of cities rnd s s'] updates_best_dist[of cities rnds s s''] by blast

text \<open>
  Six frames on the unit square from the tour \<open>0, 2, 1, 3\<close>, and the first of them alone:
  \<open>best_dist\<close> falls from \<open>2 + 2 * sqrt 2\<close> to 4.
\<close>

theorem best_dist_non_increasing_witness:
  "update unit_square (\<lambda>k. (1, 2))
     \<lparr>current = [0, 2, 1, 3], current_dist = 2 + 2 * sqrt 2, best_dist = 2 + 2 * sqrt 2,
          distance_history = [2 + 2 * sqrt 2], iteration = 0, stuck_counter = 0,
          is_global = False, local_optima_distances = []\<rparr>
   = Inr \<lparr>current = [0, 1, 2, 3], current_dist = 4, best_dist = 4,
          distance_history = [2 + 2 * sqrt 2, 4], iteration = 1, stuck_counter = 9,
          is_global = False, local_optima_distances = []\<rparr>
   \<and> updates unit_square (replicate 6 (\<lambda>k. (1, 2)))
     \<lparr>current = [0, 2, 1, 3], current_dist = 2 + 2 * sqrt 2, best_dist = 2 + 2 * sqrt 2,
          distance_history = [2 + 2 * sqrt 2], iteration = 0, stuck_counter = 0,
          is_global = False, local_optima_distances = []\<rparr>
   = Inr \<lparr>current = [0, 1, 2, 3], current_dist = 4, best_dist = 4,
          distance_history = [2 + 2 * sqrt 2, 4, 4, 4, 4, 4, 4], iteration = 6,
          stuck_counter = 59, is_global = True, local_optima_distances = [4]\<rparr>
   \<and> (4::real) \<le> 2 + 2 * sqrt 2"
  using best_dist_non_increasing[of unit_square "\<lambda>k. (1, 2)"
      "\<lparr>current = [0, 2, 1, 3], current_dist = 2 + 2 * sqrt 2, best_dist = 2 + 2 * sqrt 2,
          distance_history = [2 + 2 * sqrt 2], iteration = 0, stuck_counter = 0,
          is_global = False, local_optima_distances = []\<rparr>"
      "\<lparr>current = [0, 1, 2, 3], current_dist = 4, best_dist = 4,
          distance_history = [2 + 2 * sqrt 2, 4], iteration = 1, stuck_counter = 9,
          is_global = False, local_optima_distances = []\<rparr>"
      "replicate 6 (\<lambda>k. (1, 2))"
      "\<lparr>current = [0, 1, 2, 3], current_dist = 4, best_dist = 4,
          distance_history = [2 + 2 * sqrt 2, 4, 4, 4, 4, 4, 4], iteration = 6,
          stuck_counter = 59, is_global = True, local_optima_distances = [4]\<rparr>"]
    square_frame_1 square_run_6
  by simp

lemma update_rounds_improved:
  "update_rounds cities rnd n s = Inr (sn, bn) \<Longrightarrow>
   bn = (\<exists>k<n. \<exists>sk bk. update_rounds cities rnd k s = Inr (sk, bk) \<and> accepted cities (rnd k) sk)"
proof (induction n arbitrary: sn bn)
  case 0
  then show ?case by (simp add: update_rounds_0)
next
  case (Suc n)
  from Suc.prems obtain sm bm where
    m: "update_rounds cities rnd n s = Inr (sm, bm)" and
    c: "candidate cities (rnd n) (sm, bm) = Inr (sn, bn)"
    by (auto simp: update_rounds_Suc split: sum.splits)
  have bn: "bn = (bm \<or> accepted cities (rnd n) sm)" using c by (rule candidate_fields)
  have bm: "bm = (\<exists>k<n. \<exists>sk bk. update_rounds cities rnd k s = Inr (sk, bk)
      \<and> accepted cities (rnd k) sk)"
    using m by (rule Suc.IH)
  have pn: "(\<exists>sk bk. update_rounds cities rnd n s = Inr (sk, bk) \<and> accepted cities (rnd n) sk)
      = accepted cities (rnd n) sm"
    using m by simp
  have "(\<exists>k<Suc n. \<exists>sk bk. update_rounds cities rnd k s = Inr (sk, bk)
        \<and> accepted cities (rnd k) sk)
      = ((\<exists>k<n. \<exists>sk bk. update_rounds cities rnd k s = Inr (sk, bk)
        \<and> accepted cities (rnd k) sk)
         \<or> (\<exists>sk bk. update_rounds cities rnd n s = Inr (sk, bk) \<and> accepted cities (rnd n) sk))"
    by (auto simp: less_Suc_eq)
  then show ?case using bn bm pn by simp
qed

lemma round_accepted:
  assumes "update_rounds cities rnd k s = Inr (sk, bk)" and "accepted cities (rnd k) sk"
  shows "\<exists>sk'. update_rounds cities rnd (Suc k) s = Inr (sk', True) \<and> stuck_counter sk' = 0
     \<and> current_dist sk' < current_dist sk"
  using candidate_accepted[OF assms(2), of bk] assms(1)
  by (auto simp: update_rounds_Suc)

lemma round_rejected:
  assumes "update_rounds cities rnd k s = Inr (sk, bk)" and "rejected cities (rnd k) sk"
  shows "update_rounds cities rnd (Suc k) s
     = Inr (sk\<lparr>stuck_counter := stuck_counter sk + 1\<rparr>, bk)"
  using candidate_rejected[OF assms(2), of bk] assms(1)
  by (simp add: update_rounds_Suc)

lemma tie_rejected:
  assumes "candidate_dist cities draw (current s) = Inr (current_dist s)"
  shows "rejected cities draw s"
    and "candidate cities draw (s, b) = Inr (s\<lparr>stuck_counter := stuck_counter s + 1\<rparr>, b)"
proof -
  show r: "rejected cities draw s" using assms by (simp add: rejected_def)
  then show "candidate cities draw (s, b) = Inr (s\<lparr>stuck_counter := stuck_counter s + 1\<rparr>, b)"
    by (rule candidate_rejected)
qed

lemma round_counter_zero:
  assumes k: "update_rounds cities rnd k s = Inr (sk, bk)"
    and n: "update_rounds cities rnd (Suc k) s = Inr (sa, ba)"
  shows "(stuck_counter sa = 0) = accepted cities (rnd k) sk"
proof (cases "accepted cities (rnd k) sk")
  case True
  from round_accepted[OF k True] n show ?thesis using True by auto
next
  case False
  have c: "candidate cities (rnd k) (sk, bk) = Inr (sa, ba)"
    using k n by (simp add: update_rounds_Suc)
  then have "rejected cities (rnd k) sk" using candidate_decides False by blast
  from round_rejected[OF k this] n have "sa = sk\<lparr>stuck_counter := stuck_counter sk + 1\<rparr>"
    by simp
  then show ?thesis using False by simp
qed

lemma rounds_improved_counter:
  assumes "update_rounds cities rnd n s = Inr (sn, bn)"
  shows "bn = (\<exists>k<n. \<exists>sa ba. update_rounds cities rnd (Suc k) s = Inr (sa, ba)
      \<and> stuck_counter sa = 0)"
proof -
  have bn: "bn = (\<exists>k<n. \<exists>sk bk. update_rounds cities rnd k s = Inr (sk, bk)
      \<and> accepted cities (rnd k) sk)"
    using assms by (rule update_rounds_improved)
  show ?thesis unfolding bn
  proof
    assume "\<exists>k<n. \<exists>sk bk. update_rounds cities rnd k s = Inr (sk, bk)
      \<and> accepted cities (rnd k) sk"
    then obtain k sk bk where kn: "k < n"
      and uk: "update_rounds cities rnd k s = Inr (sk, bk)"
      and a: "accepted cities (rnd k) sk"
      by blast
    from round_accepted[OF uk a] kn
    show "\<exists>k<n. \<exists>sa ba. update_rounds cities rnd (Suc k) s = Inr (sa, ba)
      \<and> stuck_counter sa = 0"
      by blast
  next
    assume "\<exists>k<n. \<exists>sa ba. update_rounds cities rnd (Suc k) s = Inr (sa, ba)
      \<and> stuck_counter sa = 0"
    then obtain k sa ba where kn: "k < n"
      and un: "update_rounds cities rnd (Suc k) s = Inr (sa, ba)"
      and z: "stuck_counter sa = 0"
      by blast
    have "k \<le> Suc k" by simp
    from update_rounds_prefix[OF un this] obtain sk bk
      where uk: "update_rounds cities rnd k s = Inr (sk, bk)" by blast
    from round_counter_zero[OF uk un] z have "accepted cities (rnd k) sk" by simp
    with kn uk show "\<exists>k<n. \<exists>sk bk. update_rounds cities rnd k s = Inr (sk, bk)
      \<and> accepted cities (rnd k) sk"
      by blast
  qed
qed

text \<open>
  C5. A frame never ends with a larger \<open>current_dist\<close> than it started with. The distance
  is strictly smaller at the end exactly when \<open>stuck_counter\<close> was reset during the frame:
  when the counter is 0 after some round of it, which is also exactly when \<open>improved\<close> is
  true at the end. A neighbour of the same length as the current tour is rejected: the
  round only adds 1 to the counter.
\<close>

theorem update_strict_descent:
  assumes "update cities rnd s = Inr s'"
  shows "current_dist s' \<le> current_dist s
   \<and> (\<exists>sb improved. update_batch cities rnd s = Inr (sb, improved)
        \<and> improved = (current_dist s' < current_dist s))
   \<and> (current_dist s' < current_dist s)
      = (\<exists>k<10. \<exists>sa ba. update_rounds cities rnd (Suc k) s = Inr (sa, ba)
           \<and> stuck_counter sa = 0)
   \<and> (candidate_dist cities draw (current s) = Inr (current_dist s)
        \<longrightarrow> rejected cities draw s
          \<and> candidate cities draw (s, b) = Inr (s\<lparr>stuck_counter := stuck_counter s + 1\<rparr>, b))"
proof -
  from assms obtain sb improved
    where b: "update_batch cities rnd s = Inr (sb, improved)" and s': "s' = finish_step sb"
    by (rule update_Inr)
  have cd: "current_dist s' = current_dist sb" by (simp add: s' finish_step_simps)
  have le: "current_dist s' \<le> current_dist s"
    using update_batch_fields(1)[OF b] by (simp add: cd)
  have imp: "improved = (current_dist s' < current_dist s)"
    using update_batch_fields(5)[OF b] by (simp add: cd)
  have r10: "update_rounds cities rnd 10 s = Inr (sb, improved)"
    using b by (simp add: update_batch_def)
  have "improved = (\<exists>k<10. \<exists>sa ba. update_rounds cities rnd (Suc k) s = Inr (sa, ba)
      \<and> stuck_counter sa = 0)"
    using r10 by (rule rounds_improved_counter)
  then have acc: "(current_dist s' < current_dist s)
      = (\<exists>k<10. \<exists>sa ba. update_rounds cities rnd (Suc k) s = Inr (sa, ba)
           \<and> stuck_counter sa = 0)"
    using imp by simp
  have tie: "candidate_dist cities draw (current s) = Inr (current_dist s)
        \<longrightarrow> rejected cities draw s
          \<and> candidate cities draw (s, b) = Inr (s\<lparr>stuck_counter := stuck_counter s + 1\<rparr>, b)"
    using tie_rejected(1)[of cities draw s] tie_rejected(2)[of cities draw s b] by blast
  from le b imp acc tie show ?thesis by blast
qed

text \<open>
  The first frame on the unit square from the tour \<open>0, 2, 1, 3\<close>: round 0 accepts the tour
  \<open>0, 1, 2, 3\<close> of length 4 and leaves the counter at 0, and the nine rounds after it
  reject.
\<close>

theorem update_strict_descent_witness:
  "update unit_square (\<lambda>k. (1, 2))
     \<lparr>current = [0, 2, 1, 3], current_dist = 2 + 2 * sqrt 2, best_dist = 2 + 2 * sqrt 2,
          distance_history = [2 + 2 * sqrt 2], iteration = 0, stuck_counter = 0,
          is_global = False, local_optima_distances = []\<rparr>
   = Inr \<lparr>current = [0, 1, 2, 3], current_dist = 4, best_dist = 4,
          distance_history = [2 + 2 * sqrt 2, 4], iteration = 1, stuck_counter = 9,
          is_global = False, local_optima_distances = []\<rparr>
   \<and> (4::real) < 2 + 2 * sqrt 2
   \<and> (\<exists>sb. update_batch unit_square (\<lambda>k. (1, 2))
     \<lparr>current = [0, 2, 1, 3], current_dist = 2 + 2 * sqrt 2, best_dist = 2 + 2 * sqrt 2,
          distance_history = [2 + 2 * sqrt 2], iteration = 0, stuck_counter = 0,
          is_global = False, local_optima_distances = []\<rparr> = Inr (sb, True))
   \<and> (\<exists>k<10. \<exists>sa ba. update_rounds unit_square (\<lambda>k. (1, 2)) (Suc k)
     \<lparr>current = [0, 2, 1, 3], current_dist = 2 + 2 * sqrt 2, best_dist = 2 + 2 * sqrt 2,
          distance_history = [2 + 2 * sqrt 2], iteration = 0, stuck_counter = 0,
          is_global = False, local_optima_distances = []\<rparr> = Inr (sa, ba)
        \<and> stuck_counter sa = 0)"
proof -
  let ?A = "\<lparr>current = [0, 2, 1, 3], current_dist = 2 + 2 * sqrt 2,
          best_dist = 2 + 2 * sqrt 2,
          distance_history = [2 + 2 * sqrt 2], iteration = 0, stuck_counter = 0,
          is_global = False, local_optima_distances = []\<rparr>"
  let ?B = "\<lparr>current = [0, 1, 2, 3], current_dist = 4, best_dist = 4,
          distance_history = [2 + 2 * sqrt 2, 4], iteration = 1, stuck_counter = 9,
          is_global = False, local_optima_distances = []\<rparr>"
  note d = update_strict_descent[OF square_frame_1]
  have lt: "current_dist ?B < current_dist ?A" using sq_lt by simp
  from d have "\<exists>sb improved. update_batch unit_square (\<lambda>k. (1, 2)) ?A = Inr (sb, improved)
      \<and> improved = (current_dist ?B < current_dist ?A)"
    by blast
  with lt have i: "\<exists>sb. update_batch unit_square (\<lambda>k. (1, 2)) ?A = Inr (sb, True)" by auto
  from d have "(current_dist ?B < current_dist ?A)
      = (\<exists>k<10. \<exists>sa ba. update_rounds unit_square (\<lambda>k. (1, 2)) (Suc k) ?A = Inr (sa, ba)
           \<and> stuck_counter sa = 0)"
    by blast
  with lt have z: "\<exists>k<10. \<exists>sa ba. update_rounds unit_square (\<lambda>k. (1, 2)) (Suc k) ?A
      = Inr (sa, ba) \<and> stuck_counter sa = 0"
    by blast
  from square_frame_1 sq_lt i z show ?thesis by blast
qed

lemma rounds_then_all_rejected:
  assumes k: "k < 10"
    and r: "update_rounds cities rnd (Suc k) s = Inr (sk', bk')"
    and rej: "\<forall>m. k < m \<and> m < 10 \<longrightarrow> rejected cities (rnd m) sk'"
  shows "update_batch cities rnd s
     = Inr (sk'\<lparr>stuck_counter := stuck_counter sk' + (9 - k)\<rparr>, bk')"
proof -
  have le: "Suc k \<le> 10" using k by simp
  have "\<forall>d\<in>set (map rnd [Suc k..<10]). rejected cities d sk'" using rej by auto
  from batch_all_rejected[OF this, of bk']
  have "batch cities (map rnd [Suc k..<10]) (sk', bk')
      = Inr (sk'\<lparr>stuck_counter := stuck_counter sk' + (9 - k)\<rparr>, bk')"
    by simp
  with r update_rounds_split[OF le, of cities rnd s] show ?thesis
    by (simp add: update_batch_def)
qed

lemma update_batch_all_rejected:
  assumes "\<forall>k<10. rejected cities (rnd k) s"
  shows "update_batch cities rnd s = Inr (s\<lparr>stuck_counter := stuck_counter s + 10\<rparr>, False)"
proof -
  have "\<forall>d\<in>set (map rnd [0..<10]). rejected cities d s" using assms by auto
  from batch_all_rejected[OF this, of False] show ?thesis
    by (simp add: update_batch_def update_rounds_def)
qed

text \<open>
  C7. The counter within one frame. If all ten rounds reject, the frame adds exactly 10
  to \<open>stuck_counter\<close>. A round that accepts leaves the counter at 0, and a round that
  rejects adds 1 to it; so when the rounds after round \<open>k\<close> all reject, the frame ends with
  the counter of round \<open>k\<close> plus the \<open>9 - k\<close> rounds that followed, which is \<open>9 - k\<close> when
  round \<open>k\<close> accepted.
\<close>

theorem stuck_counter_accounting:
  "((\<forall>k<10. rejected cities (rnd k) s)
      \<longrightarrow> update_batch cities rnd s
            = Inr (s\<lparr>stuck_counter := stuck_counter s + 10\<rparr>, False))
   \<and> (update_rounds cities rnd k s = Inr (sk, bk) \<and> accepted cities (rnd k) sk
      \<longrightarrow> (\<exists>sa. update_rounds cities rnd (Suc k) s = Inr (sa, True) \<and> stuck_counter sa = 0))
   \<and> (update_rounds cities rnd k s = Inr (sk, bk) \<and> rejected cities (rnd k) sk
      \<longrightarrow> update_rounds cities rnd (Suc k) s
            = Inr (sk\<lparr>stuck_counter := stuck_counter sk + 1\<rparr>, bk))
   \<and> (k < 10 \<and> update_rounds cities rnd (Suc k) s = Inr (sk', bk')
        \<and> (\<forall>m. k < m \<and> m < 10 \<longrightarrow> rejected cities (rnd m) sk')
      \<longrightarrow> update_batch cities rnd s
            = Inr (sk'\<lparr>stuck_counter := stuck_counter sk' + (9 - k)\<rparr>, bk'))"
proof (intro conjI impI)
  assume "\<forall>k<10. rejected cities (rnd k) s"
  then show "update_batch cities rnd s
      = Inr (s\<lparr>stuck_counter := stuck_counter s + 10\<rparr>, False)"
    by (rule update_batch_all_rejected)
next
  assume "update_rounds cities rnd k s = Inr (sk, bk) \<and> accepted cities (rnd k) sk"
  then show "\<exists>sa. update_rounds cities rnd (Suc k) s = Inr (sa, True) \<and> stuck_counter sa = 0"
    using round_accepted[of cities rnd k s sk bk] by blast
next
  assume "update_rounds cities rnd k s = Inr (sk, bk) \<and> rejected cities (rnd k) sk"
  then show "update_rounds cities rnd (Suc k) s
      = Inr (sk\<lparr>stuck_counter := stuck_counter sk + 1\<rparr>, bk)"
    using round_rejected[of cities rnd k s sk bk] by blast
next
  assume "k < 10 \<and> update_rounds cities rnd (Suc k) s = Inr (sk', bk')
        \<and> (\<forall>m. k < m \<and> m < 10 \<longrightarrow> rejected cities (rnd m) sk')"
  then show "update_batch cities rnd s
      = Inr (sk'\<lparr>stuck_counter := stuck_counter sk' + (9 - k)\<rparr>, bk')"
    using rounds_then_all_rejected[of k cities rnd s sk' bk'] by blast
qed

text \<open>
  On the unit square: from the tour \<open>0, 1, 2, 3\<close> all ten rounds reject and the counter
  goes from 9 to 19; from the tour \<open>0, 2, 1, 3\<close> round 0 accepts and leaves the counter
  at 0.
\<close>

theorem stuck_counter_accounting_witness:
  "rejected unit_square (1, 2)
       \<lparr>current = [0, 1, 2, 3], current_dist = 4, best_dist = 4,
          distance_history = [4], iteration = 1, stuck_counter = 9,
          is_global = False, local_optima_distances = []\<rparr>
   \<and> update_batch unit_square (\<lambda>k. (1, 2))
       \<lparr>current = [0, 1, 2, 3], current_dist = 4, best_dist = 4,
          distance_history = [4], iteration = 1, stuck_counter = 9,
          is_global = False, local_optima_distances = []\<rparr>
     = Inr (\<lparr>current = [0, 1, 2, 3], current_dist = 4, best_dist = 4,
          distance_history = [4], iteration = 1, stuck_counter = 19,
          is_global = False, local_optima_distances = []\<rparr>, False)
   \<and> accepted unit_square (1, 2)
       \<lparr>current = [0, 2, 1, 3], current_dist = 2 + 2 * sqrt 2, best_dist = 2 + 2 * sqrt 2,
          distance_history = [2 + 2 * sqrt 2], iteration = 0, stuck_counter = 0,
          is_global = False, local_optima_distances = []\<rparr>
   \<and> (\<exists>sa. update_rounds unit_square (\<lambda>k. (1, 2)) (Suc 0)
       \<lparr>current = [0, 2, 1, 3], current_dist = 2 + 2 * sqrt 2, best_dist = 2 + 2 * sqrt 2,
          distance_history = [2 + 2 * sqrt 2], iteration = 0, stuck_counter = 0,
          is_global = False, local_optima_distances = []\<rparr> = Inr (sa, True)
        \<and> stuck_counter sa = 0)"
proof -
  let ?C = "\<lparr>current = [0, 1, 2, 3], current_dist = 4, best_dist = 4,
          distance_history = [4], iteration = 1, stuck_counter = 9,
          is_global = False, local_optima_distances = []\<rparr>"
  let ?A = "\<lparr>current = [0, 2, 1, 3], current_dist = 2 + 2 * sqrt 2,
          best_dist = 2 + 2 * sqrt 2,
          distance_history = [2 + 2 * sqrt 2], iteration = 0, stuck_counter = 0,
          is_global = False, local_optima_distances = []\<rparr>"
  have r: "\<forall>k<(10::nat). rejected unit_square ((\<lambda>k. (1, 2)) k) ?C"
    using rej[of ?C] by (simp del: One_nat_def)
  have a: "accepted unit_square ((\<lambda>k. (1, 2)) 0) ?A"
    using acc[of ?A] by (simp del: One_nat_def)
  have u0: "update_rounds unit_square (\<lambda>k. (1, 2)) 0 ?A = Inr (?A, False)"
    by (rule update_rounds_0)
  from stuck_counter_accounting[of unit_square "\<lambda>k. (1, 2)" ?C] r
  have b: "update_batch unit_square (\<lambda>k. (1, 2)) ?C
      = Inr (?C\<lparr>stuck_counter := stuck_counter ?C + 10\<rparr>, False)"
    by blast
  from stuck_counter_accounting[of unit_square "\<lambda>k. (1, 2)" ?A 0 ?A False] u0 a
  have c: "\<exists>sa. update_rounds unit_square (\<lambda>k. (1, 2)) (Suc 0) ?A = Inr (sa, True)
      \<and> stuck_counter sa = 0"
    by blast
  have r0: "rejected unit_square (1, 2) ?C"
    using rej[of ?C] by (simp del: One_nat_def)
  from r0 a b c show ?thesis by (simp del: One_nat_def)
qed

lemma init_state_current: "init_state cities p = Inr s \<Longrightarrow> current s = p"
  by (auto simp: init_state_def split: sum.splits)

lemma init_state_registry: "init_state cities p = Inr s \<Longrightarrow> local_optima_distances s = []"
  by (auto simp: init_state_def split: sum.splits)

lemma restart_fields:
  assumes "restart cities p s = Inr s'"
  shows "current s' = p"
    and "total_distance cities p = Inr (current_dist s')"
    and "distance_history s' = [current_dist s']"
    and "iteration s' = 0"
    and "stuck_counter s' = 0"
    and "best_dist s' = best_dist s"
    and "is_global s' = is_global s"
    and "local_optima_distances s' = local_optima_distances s"
  using assms by (auto simp: restart_def split: sum.splits)

lemma reachable_perm:
  "reachable cities s \<Longrightarrow> mset (current s) = mset [0..<length cities]"
proof (induction rule: reachable.induct)
  case (reach_init p s)
  then show ?case by (simp add: init_state_current)
next
  case (reach_update s rnd s')
  then show ?case using update_fields(3) by metis
next
  case (reach_restart s p s')
  then show ?case by (simp add: restart_fields(1))
qed

lemma perm_upt:
  assumes "mset xs = mset [0..<n]"
  shows "distinct xs" and "set xs = {0..<n}" and "length xs = n"
proof -
  show "distinct xs" using assms by (metis distinct_upt mset_eq_imp_distinct_iff)
  show "set xs = {0..<n}" using assms by (metis mset_eq_setD set_upt)
  show "length xs = n" using assms by (metis length_upt mset_eq_length minus_nat.diff_0)
qed

subsection \<open>The tour\<close>

text \<open>
  C4. In every reachable state the current tour is a permutation of \<open>0..N-1\<close>: the same
  multiset as \<open>[0..<N]\<close>, so no city twice and none left out. In particular
  \<open>two_opt_swap\<close> keeps the multiset of any list it is given, so it maps a permutation of
  \<open>0..n-1\<close> to a permutation of \<open>0..n-1\<close>, and on a list of at least two cities it returns.
\<close>

theorem tour_is_permutation:
  "(reachable cities s
      \<longrightarrow> mset (current s) = mset [0..<length cities]
        \<and> distinct (current s) \<and> set (current s) = {0..<length cities})
   \<and> (two_opt_swap route draw = Inr r \<longrightarrow> mset r = mset route)
   \<and> (mset route = mset [0..<n] \<and> two_opt_swap route draw = Inr r
      \<longrightarrow> mset r = mset [0..<n] \<and> distinct r \<and> set r = {0..<n})
   \<and> (2 \<le> length route \<longrightarrow> (\<exists>r'. two_opt_swap route draw = Inr r'))"
proof (intro conjI impI)
  assume "reachable cities s"
  then have m: "mset (current s) = mset [0..<length cities]" by (rule reachable_perm)
  then show "mset (current s) = mset [0..<length cities]" .
  show "distinct (current s)" using m by (rule perm_upt)
  show "set (current s) = {0..<length cities}" using m by (rule perm_upt)
next
  assume "two_opt_swap route draw = Inr r"
  then show "mset r = mset route" by (rule two_opt_swap_mset)
next
  assume a: "mset route = mset [0..<n] \<and> two_opt_swap route draw = Inr r"
  then have m: "mset r = mset [0..<n]" using two_opt_swap_mset by metis
  then show "mset r = mset [0..<n]" .
  show "distinct r" using m by (rule perm_upt)
  show "set r = {0..<n}" using m by (rule perm_upt)
next
  assume "2 \<le> length route"
  then show "\<exists>r'. two_opt_swap route draw = Inr r'" by (rule two_opt_swap_total)
qed

lemma mset_0213: "mset [0, 2, 1, 3] = mset [0..<length unit_square]"
proof -
  have "length unit_square = 4" by (simp add: unit_square_def)
  then show ?thesis by (simp add: upt4 del: One_nat_def)
qed

lemma mset_0123: "mset [0, 1, 2, 3] = mset [0..<length unit_square]"
proof -
  have "length unit_square = 4" by (simp add: unit_square_def)
  then show ?thesis by (simp add: upt4 del: One_nat_def)
qed

lemma valid_draw_12: "\<forall>k<(10::nat). valid_draw 4 (1, 2)"
  by (simp add: valid_draw_def)

lemma square_reachable_0:
  "reachable unit_square
     \<lparr>current = [0, 2, 1, 3], current_dist = 2 + 2 * sqrt 2, best_dist = 2 + 2 * sqrt 2,
          distance_history = [2 + 2 * sqrt 2], iteration = 0, stuck_counter = 0,
          is_global = False, local_optima_distances = []\<rparr>"
  using mset_0213 square_init by (rule reach_init)

lemma square_reachable_1:
  "reachable unit_square
     \<lparr>current = [0, 1, 2, 3], current_dist = 4, best_dist = 4,
          distance_history = [2 + 2 * sqrt 2, 4], iteration = 1, stuck_counter = 9,
          is_global = False, local_optima_distances = []\<rparr>"
proof (rule reach_update[OF square_reachable_0 _ square_frame_1])
  show "\<forall>k<10. valid_draw (length (current
     \<lparr>current = [0, 2, 1, 3], current_dist = 2 + 2 * sqrt 2, best_dist = 2 + 2 * sqrt 2,
          distance_history = [2 + 2 * sqrt 2], iteration = 0, stuck_counter = 0,
          is_global = False, local_optima_distances = []\<rparr>)) (1, 2)"
    by (simp add: valid_draw_def)
qed

text \<open>
  The state after the first frame on the unit square, and the move that took the tour
  \<open>0, 2, 1, 3\<close> to \<open>0, 1, 2, 3\<close>.
\<close>

theorem tour_is_permutation_witness:
  "reachable unit_square
     \<lparr>current = [0, 1, 2, 3], current_dist = 4, best_dist = 4,
          distance_history = [2 + 2 * sqrt 2, 4], iteration = 1, stuck_counter = 9,
          is_global = False, local_optima_distances = []\<rparr>
   \<and> mset [0, 1, 2, 3] = mset [0..<length unit_square]
   \<and> distinct [0, 1, 2, 3::nat]
   \<and> two_opt_swap [0, 2, 1, 3] (1, 2) = Inr [0, 1, 2, 3]
   \<and> mset [0, 1, 2, 3::nat] = mset [0, 2, 1, 3]"
proof -
  let ?A = "\<lparr>current = [0, 1, 2, 3], current_dist = 4, best_dist = 4,
          distance_history = [2 + 2 * sqrt 2, 4], iteration = 1, stuck_counter = 9,
          is_global = False, local_optima_distances = []\<rparr>"
  have sw: "two_opt_swap [0, 2, 1, 3] (1, 2) = Inr [0, 1, 2, 3]"
    by (simp add: two_opt_swap_def)
  note t = tour_is_permutation[of unit_square ?A "[0, 2, 1, 3]" "(1, 2)" "[0, 1, 2, 3]" 4]
  from t square_reachable_1 have "mset (current ?A) = mset [0..<length unit_square]
      \<and> distinct (current ?A)"
    by blast
  then have a: "mset [0, 1, 2, 3] = mset [0..<length unit_square]"
    and b: "distinct [0, 1, 2, 3::nat]"
    by simp_all
  from t sw have c: "mset [0, 1, 2, 3::nat] = mset [0, 2, 1, 3]" by blast
  from square_reachable_1 a b sw c show ?thesis by blast
qed

lemma registry_apart_Nil: "registry_apart []"
  by (simp add: registry_apart_def)

lemma registry_apart_snoc:
  assumes "registry_apart xs" and "\<forall>x\<in>set xs. tolerance \<le> \<bar>d - x\<bar>"
  shows "registry_apart (xs @ [d])"
  unfolding registry_apart_def
proof (intro allI impI)
  fix i j
  assume ij: "i < j \<and> j < length (xs @ [d])"
  show "tolerance \<le> \<bar>(xs @ [d]) ! i - (xs @ [d]) ! j\<bar>"
  proof (cases "j < length xs")
    case True
    then have "(xs @ [d]) ! i = xs ! i" and "(xs @ [d]) ! j = xs ! j"
      using ij by (simp_all add: nth_append)
    then show ?thesis using assms(1) ij True by (simp add: registry_apart_def)
  next
    case False
    then have j: "j = length xs" using ij by simp
    then have i: "i < length xs" using ij by simp
    have "tolerance \<le> \<bar>d - xs ! i\<bar>" using assms(2) i by simp
    then show ?thesis using i j by (simp add: nth_append abs_minus_commute)
  qed
qed

lemma finish_step_apart:
  assumes "registry_apart (local_optima_distances s)"
  shows "registry_apart (local_optima_distances (finish_step s))"
proof (cases "STUCK_THRESHOLD \<le> stuck_counter s")
  case True
  show ?thesis
  proof (cases "is_new_optimum (local_optima_distances s) (current_dist s)")
    case new: True
    then have "\<forall>x\<in>set (local_optima_distances s). tolerance \<le> \<bar>current_dist s - x\<bar>"
      by (auto simp: is_new_optimum_iff not_less)
    from registry_apart_snoc[OF assms this] show ?thesis
      using finish_step_stuck(2)[OF True] new by simp
  next
    case False
    then show ?thesis using finish_step_stuck(2)[OF True] assms by simp
  qed
next
  case False
  then show ?thesis using finish_step_not_stuck(2)[of s] assms by simp
qed

lemma update_apart:
  assumes "update cities rnd s = Inr s'" and "registry_apart (local_optima_distances s)"
  shows "registry_apart (local_optima_distances s')"
proof -
  from assms(1) obtain sb improved
    where b: "update_batch cities rnd s = Inr (sb, improved)" and s': "s' = finish_step sb"
    by (rule update_Inr)
  have "local_optima_distances sb = local_optima_distances s"
    using b by (rule update_batch_fields)
  then show ?thesis using finish_step_apart[of sb] assms(2) by (simp add: s')
qed

lemma reachable_apart:
  "reachable cities s \<Longrightarrow> registry_apart (local_optima_distances s)"
proof (induction rule: reachable.induct)
  case (reach_init p s)
  then show ?case by (simp add: init_state_registry registry_apart_Nil)
next
  case (reach_update s rnd s')
  then show ?case using update_apart by blast
next
  case (reach_restart s p s')
  then show ?case by (simp add: restart_fields(8))
qed

subsection \<open>The registry\<close>

text \<open>
  C10. In every reachable state two entries of the registry at different positions are
  at least \<open>1e-6\<close> apart: the registry starts empty, \<open>restart\<close> leaves it alone, and every
  frame keeps the property, since it only appends under the tolerance test.
\<close>

theorem registry_entries_apart:
  "(reachable cities s \<longrightarrow> registry_apart (local_optima_distances s))
   \<and> (registry_apart (local_optima_distances s) \<and> update cities rnd s = Inr s'
      \<longrightarrow> registry_apart (local_optima_distances s'))
   \<and> registry_apart xs
      = (\<forall>i j. i < j \<and> j < length xs \<longrightarrow> 1 / 1000000 \<le> \<bar>xs ! i - xs ! j\<bar>)"
  using reachable_apart[of cities s] update_apart[of cities rnd s s']
  by (auto simp: registry_apart_def tolerance_def)

lemma reachable_updates:
  "reachable cities s \<Longrightarrow> updates cities rnds s = Inr s'
   \<Longrightarrow> \<forall>rnd\<in>set rnds. \<forall>k<10. valid_draw (length cities) (rnd k)
   \<Longrightarrow> reachable cities s'"
proof (induction rnds arbitrary: s)
  case Nil
  then show ?case by simp
next
  case (Cons rnd rnds)
  from Cons.prems(2) obtain s1 where
    u: "update cities rnd s = Inr s1" and r: "updates cities rnds s1 = Inr s'"
    by (auto split: sum.splits)
  have "length (current s) = length cities"
    using reachable_perm[OF Cons.prems(1)] by (rule perm_upt)
  then have "\<forall>k<10. valid_draw (length (current s)) (rnd k)" using Cons.prems(3) by simp
  with Cons.prems(1) have "reachable cities s1" using u by (rule reach_update)
  then show ?case using r Cons.prems(3) by (intro Cons.IH) simp_all
qed

lemma square_reachable_6:
  "reachable unit_square
     \<lparr>current = [0, 1, 2, 3], current_dist = 4, best_dist = 4,
          distance_history = [2 + 2 * sqrt 2, 4, 4, 4, 4, 4, 4], iteration = 6,
          stuck_counter = 59, is_global = True, local_optima_distances = [4]\<rparr>"
proof (rule reachable_updates[OF square_reachable_0 square_run_6])
  show "\<forall>rnd\<in>set (replicate 6 (\<lambda>k. (1, 2))). \<forall>k<10. valid_draw (length unit_square) (rnd k)"
    by (simp add: valid_draw_def unit_square_def)
qed

lemma square_restart:
  "restart unit_square [0, 2, 1, 3]
     \<lparr>current = [0, 1, 2, 3], current_dist = 4, best_dist = 4,
          distance_history = [2 + 2 * sqrt 2, 4, 4, 4, 4, 4, 4], iteration = 6,
          stuck_counter = 59, is_global = True, local_optima_distances = [4]\<rparr>
   = Inr \<lparr>current = [0, 2, 1, 3], current_dist = 2 + 2 * sqrt 2, best_dist = 4,
          distance_history = [2 + 2 * sqrt 2], iteration = 0,
          stuck_counter = 0, is_global = True, local_optima_distances = [4]\<rparr>"
  unfolding restart_def td_0213 by simp

lemma cd_c: "candidate_dist unit_square (0, 3) [0, 2, 1, 3] = Inr (2 + 2 * sqrt 2)"
  by (simp add: candidate_dist_def two_opt_swap_def total_distance_def upt4 unit_square_def
      city_at_def linalg_norm_def)

lemma rej_03:
  assumes "current s = [0, 2, 1, 3]" "current_dist s = 2 + 2 * sqrt 2"
  shows "rejected unit_square (0, 3) s"
  unfolding rejected_def assms cd_c by simp

lemma restarted_frame_stuck:
  assumes "current s = [0, 2, 1, 3]" "current_dist s = 2 + 2 * sqrt 2"
  shows "update unit_square (\<lambda>k. (0, 3)) s
     = Inr (finish_step (s\<lparr>stuck_counter := stuck_counter s + 10\<rparr>))"
  using rej_03[OF assms] by (intro update_all_rejected) blast

lemma sqrt2_lower: "14 / 10 < sqrt 2"
  by (rule real_less_rsqrt) (simp add: power2_eq_square)

lemma restarted_frame_searching:
  assumes "n + 10 < 50"
  shows "update unit_square (\<lambda>k. (0, 3))
     \<lparr>current = [0, 2, 1, 3], current_dist = 2 + 2 * sqrt 2, best_dist = 4,
          distance_history = h, iteration = i, stuck_counter = n,
          is_global = g, local_optima_distances = r\<rparr>
   = Inr \<lparr>current = [0, 2, 1, 3], current_dist = 2 + 2 * sqrt 2, best_dist = 4,
          distance_history = h @ [2 + 2 * sqrt 2], iteration = i + 1, stuck_counter = n + 10,
          is_global = g, local_optima_distances = r\<rparr>"
  using assms by (subst restarted_frame_stuck) (simp_all add: finish_step_def STUCK_THRESHOLD_def)

lemma restarted_frame_first_stuck:
  assumes "50 \<le> n + 10"
  shows "update unit_square (\<lambda>k. (0, 3))
     \<lparr>current = [0, 2, 1, 3], current_dist = 2 + 2 * sqrt 2, best_dist = 4,
          distance_history = h, iteration = i, stuck_counter = n,
          is_global = g, local_optima_distances = [4]\<rparr>
   = Inr \<lparr>current = [0, 2, 1, 3], current_dist = 2 + 2 * sqrt 2, best_dist = 4,
          distance_history = h @ [2 + 2 * sqrt 2], iteration = i + 1, stuck_counter = n + 10,
          is_global = False, local_optima_distances = [4, 2 + 2 * sqrt 2]\<rparr>"
  using assms sqrt2_lower by (subst restarted_frame_stuck)
    (simp_all add: finish_step_def STUCK_THRESHOLD_def is_new_optimum_def tolerance_def)

text \<open>
  Two stuck frames on the unit square with the registry at \<open>[4]\<close>. With the tour of
  length 4 the entry 4 is within the tolerance and the registry stays \<open>[4]\<close>; with the tour
  of length \<open>2 + 2 * sqrt 2\<close> no entry is, and the length is appended.
\<close>

theorem update_registers_new_optimum_witness:
  "update unit_square (\<lambda>k. (1, 2))
     \<lparr>current = [0, 1, 2, 3], current_dist = 4, best_dist = 4,
      distance_history = [4], iteration = 6, stuck_counter = 59,
      is_global = True, local_optima_distances = [4]\<rparr>
   = Inr \<lparr>current = [0, 1, 2, 3], current_dist = 4, best_dist = 4,
      distance_history = [4, 4], iteration = 7, stuck_counter = 69,
      is_global = False, local_optima_distances = [4]\<rparr>
   \<and> STUCK_THRESHOLD \<le> 69
   \<and> (\<exists>x\<in>set [4]. \<bar>(4::real) - x\<bar> < 1 / 1000000)
   \<and> [4::real]
      = (if \<exists>x\<in>set [4]. \<bar>(4::real) - x\<bar> < 1 / 1000000 then [4] else [4] @ [4])
   \<and> update unit_square (\<lambda>k. (0, 3))
     \<lparr>current = [0, 2, 1, 3], current_dist = 2 + 2 * sqrt 2, best_dist = 4,
      distance_history = [2 + 2 * sqrt 2], iteration = 4, stuck_counter = 40,
      is_global = True, local_optima_distances = [4]\<rparr>
   = Inr \<lparr>current = [0, 2, 1, 3], current_dist = 2 + 2 * sqrt 2, best_dist = 4,
      distance_history = [2 + 2 * sqrt 2, 2 + 2 * sqrt 2], iteration = 5, stuck_counter = 50,
      is_global = False, local_optima_distances = [4, 2 + 2 * sqrt 2]\<rparr>
   \<and> STUCK_THRESHOLD \<le> 50
   \<and> \<not> (\<exists>x\<in>set [4]. \<bar>2 + 2 * sqrt 2 - x\<bar> < 1 / 1000000)
   \<and> [4, 2 + 2 * sqrt 2]
      = (if \<exists>x\<in>set [4]. \<bar>2 + 2 * sqrt 2 - x\<bar> < 1 / 1000000
         then [4] else [4] @ [2 + 2 * sqrt 2])"
proof -
  let ?A = "\<lparr>current = [0, 1, 2, 3], current_dist = 4, best_dist = 4,
      distance_history = [4], iteration = 6, stuck_counter = 59,
      is_global = True, local_optima_distances = [4]\<rparr>"
  let ?B = "\<lparr>current = [0, 1, 2, 3], current_dist = 4, best_dist = 4,
      distance_history = [4, 4], iteration = 7, stuck_counter = 69,
      is_global = False, local_optima_distances = [4]\<rparr>"
  let ?C = "\<lparr>current = [0, 2, 1, 3], current_dist = 2 + 2 * sqrt 2, best_dist = 4,
      distance_history = [2 + 2 * sqrt 2], iteration = 4, stuck_counter = 40,
      is_global = True, local_optima_distances = [4]\<rparr>"
  let ?D = "\<lparr>current = [0, 2, 1, 3], current_dist = 2 + 2 * sqrt 2, best_dist = 4,
      distance_history = [2 + 2 * sqrt 2, 2 + 2 * sqrt 2], iteration = 5, stuck_counter = 50,
      is_global = False, local_optima_distances = [4, 2 + 2 * sqrt 2]\<rparr>"
  have u1: "update unit_square (\<lambda>k. (1, 2)) ?A = Inr ?B"
    using square_frame_still_stuck[of 59 "[4]" 6 True] by simp
  have t1: "STUCK_THRESHOLD \<le> stuck_counter ?B" by (simp add: STUCK_THRESHOLD_def)
  have u2: "update unit_square (\<lambda>k. (0, 3)) ?C = Inr ?D"
    using restarted_frame_first_stuck[of 40 "[2 + 2 * sqrt 2]" 4 True] by simp
  have t2: "STUCK_THRESHOLD \<le> stuck_counter ?D" by (simp add: STUCK_THRESHOLD_def)
  have near: "\<exists>x\<in>set [4]. \<bar>(4::real) - x\<bar> < 1 / 1000000" by simp
  have far: "\<not> (\<exists>x\<in>set [4]. \<bar>2 + 2 * sqrt 2 - x\<bar> < 1 / 1000000)"
    using sqrt2_lower by simp
  from update_registers_new_optimum[OF u1 t1]
  have r1: "[4::real]
      = (if \<exists>x\<in>set [4]. \<bar>(4::real) - x\<bar> < 1 / 1000000 then [4] else [4] @ [4])"
    by simp
  from update_registers_new_optimum[OF u2 t2] far sqrt2_lower
  have r2: "[4, 2 + 2 * sqrt 2]
      = (if \<exists>x\<in>set [4]. \<bar>2 + 2 * sqrt 2 - x\<bar> < 1 / 1000000
         then [4] else [4] @ [2 + 2 * sqrt 2])"
    by simp
  have t1': "STUCK_THRESHOLD \<le> 69" and t2': "STUCK_THRESHOLD \<le> 50"
    by (simp_all add: STUCK_THRESHOLD_def)
  from u1 t1' near r1 u2 t2' far r2 show ?thesis by blast
qed

lemma replicate_5: "replicate 5 x = [x, x, x, x, x]"
  by (simp add: eval_nat_numeral)

lemma restarted_run_5:
  "updates unit_square (replicate 5 (\<lambda>k. (0, 3)))
     \<lparr>current = [0, 2, 1, 3], current_dist = 2 + 2 * sqrt 2, best_dist = 4,
          distance_history = [2 + 2 * sqrt 2], iteration = 0,
          stuck_counter = 0, is_global = True, local_optima_distances = [4]\<rparr>
   = Inr \<lparr>current = [0, 2, 1, 3], current_dist = 2 + 2 * sqrt 2, best_dist = 4,
          distance_history = [2 + 2 * sqrt 2, 2 + 2 * sqrt 2, 2 + 2 * sqrt 2,
            2 + 2 * sqrt 2, 2 + 2 * sqrt 2, 2 + 2 * sqrt 2], iteration = 5,
          stuck_counter = 50, is_global = False,
          local_optima_distances = [4, 2 + 2 * sqrt 2]\<rparr>"
  unfolding replicate_5
  by (simp del: One_nat_def add: restarted_frame_searching restarted_frame_first_stuck)

lemma restarted_reachable:
  "reachable unit_square
     \<lparr>current = [0, 2, 1, 3], current_dist = 2 + 2 * sqrt 2, best_dist = 4,
          distance_history = [2 + 2 * sqrt 2, 2 + 2 * sqrt 2, 2 + 2 * sqrt 2,
            2 + 2 * sqrt 2, 2 + 2 * sqrt 2, 2 + 2 * sqrt 2], iteration = 5,
          stuck_counter = 50, is_global = False,
          local_optima_distances = [4, 2 + 2 * sqrt 2]\<rparr>"
proof (rule reachable_updates[OF _ restarted_run_5])
  show "reachable unit_square
     \<lparr>current = [0, 2, 1, 3], current_dist = 2 + 2 * sqrt 2, best_dist = 4,
          distance_history = [2 + 2 * sqrt 2], iteration = 0,
          stuck_counter = 0, is_global = True, local_optima_distances = [4]\<rparr>"
    using square_reachable_6 mset_0213 square_restart by (rule reach_restart)
  show "\<forall>rnd\<in>set (replicate 5 (\<lambda>k. (0, 3))). \<forall>k<10. valid_draw (length unit_square) (rnd k)"
    by (simp add: valid_draw_def unit_square_def)
qed

text \<open>
  On the unit square: six frames reach and register the optimum 4, a restart puts the
  tour \<open>0, 2, 1, 3\<close> back, and five frames that only draw the whole tour for reversal
  register its length \<open>2 + 2 * sqrt 2\<close> as a second entry.
\<close>

theorem registry_entries_apart_witness:
  "reachable unit_square
     \<lparr>current = [0, 2, 1, 3], current_dist = 2 + 2 * sqrt 2, best_dist = 4,
          distance_history = [2 + 2 * sqrt 2, 2 + 2 * sqrt 2, 2 + 2 * sqrt 2,
            2 + 2 * sqrt 2, 2 + 2 * sqrt 2, 2 + 2 * sqrt 2], iteration = 5,
          stuck_counter = 50, is_global = False,
          local_optima_distances = [4, 2 + 2 * sqrt 2]\<rparr>
   \<and> registry_apart [4, 2 + 2 * sqrt 2]
   \<and> 1 / 1000000 \<le> \<bar>4 - (2 + 2 * sqrt 2)\<bar>"
proof -
  let ?A = "\<lparr>current = [0, 2, 1, 3], current_dist = 2 + 2 * sqrt 2, best_dist = 4,
          distance_history = [2 + 2 * sqrt 2, 2 + 2 * sqrt 2, 2 + 2 * sqrt 2,
            2 + 2 * sqrt 2, 2 + 2 * sqrt 2, 2 + 2 * sqrt 2], iteration = 5,
          stuck_counter = 50, is_global = False,
          local_optima_distances = [4, 2 + 2 * sqrt 2]\<rparr>"
  note t = registry_entries_apart[of unit_square ?A _ _ "[4, 2 + 2 * sqrt 2]"]
  from t restarted_reachable have "registry_apart (local_optima_distances ?A)" by blast
  then have a: "registry_apart [4, 2 + 2 * sqrt 2]" by simp
  from t a have "\<forall>i j. i < j \<and> j < length [4, 2 + 2 * sqrt 2]
      \<longrightarrow> 1 / 1000000 \<le> \<bar>[4, 2 + 2 * sqrt 2] ! i - [4, 2 + 2 * sqrt 2] ! j\<bar>"
    by blast
  then have "0 < (1::nat) \<and> 1 < length [4, 2 + 2 * sqrt 2]
      \<longrightarrow> 1 / 1000000 \<le> \<bar>[4, 2 + 2 * sqrt 2] ! 0 - [4, 2 + 2 * sqrt 2] ! 1\<bar>"
    by blast
  then have b: "1 / 1000000 \<le> \<bar>4 - (2 + 2 * sqrt 2)\<bar>" by simp
  from restarted_reachable a b show ?thesis by blast
qed

subsection \<open>Restart\<close>

text \<open>
  C1, as the specification states it, fails: \<open>restart\<close> assigns \<open>current\<close>, \<open>current_dist\<close>,
  \<open>distance_history\<close>, \<open>iteration\<close> and \<open>stuck_counter\<close> and nothing else. On the unit
  square, restarting from the state that six frames reach (optimum 4 found and registered)
  leaves the registry at \<open>[4]\<close>, \<open>is_global\<close> set and \<open>best_dist\<close> at 4, which is below the
  length \<open>2 + 2 * sqrt 2\<close> of the new tour.
\<close>

theorem restart_keeps_registry:
  "restart unit_square [0, 2, 1, 3]
     \<lparr>current = [0, 1, 2, 3], current_dist = 4, best_dist = 4,
          distance_history = [2 + 2 * sqrt 2, 4, 4, 4, 4, 4, 4], iteration = 6,
          stuck_counter = 59, is_global = True, local_optima_distances = [4]\<rparr>
   = Inr \<lparr>current = [0, 2, 1, 3], current_dist = 2 + 2 * sqrt 2, best_dist = 4,
          distance_history = [2 + 2 * sqrt 2], iteration = 0,
          stuck_counter = 0, is_global = True, local_optima_distances = [4]\<rparr>
   \<and> [4::real] \<noteq> []
   \<and> (4::real) < 2 + 2 * sqrt 2"
  using square_restart sq_lt by simp

text \<open>
  C1, amended. After \<open>restart\<close> with a permutation of \<open>0..N-1\<close> as the new tour, the call
  returns, \<open>current\<close> is the new tour, \<open>current_dist\<close> is its length, \<open>iteration\<close> and
  \<open>stuck_counter\<close> are 0 and \<open>distance_history\<close> has exactly one entry, the new
  \<open>current_dist\<close>; \<open>is_global\<close> and the registry keep the values they had before the call.
\<close>

theorem restart_resets_run:
  assumes "mset p = mset [0..<length cities]"
  shows "\<exists>s'. restart cities p s = Inr s'
     \<and> current s' = p
     \<and> total_distance cities p = Inr (current_dist s')
     \<and> iteration s' = 0
     \<and> stuck_counter s' = 0
     \<and> distance_history s' = [current_dist s']
     \<and> is_global s' = is_global s
     \<and> local_optima_distances s' = local_optima_distances s"
proof -
  from total_distance_perm[OF assms] obtain d where "total_distance cities p = Inr d" by blast
  then have "restart cities p s
      = Inr (s\<lparr>current := p, current_dist := d, distance_history := [d],
              iteration := 0, stuck_counter := 0\<rparr>)"
    by (simp add: restart_def)
  then obtain s' where r: "restart cities p s = Inr s'" by blast
  note f = restart_fields[OF r]
  from r f(1-5) f(7-8) show ?thesis by blast
qed

text \<open>The restart of the counterexample: the run is reset, the registry is still \<open>[4]\<close>.\<close>

theorem restart_resets_run_witness:
  "mset [0, 2, 1, 3] = mset [0..<length unit_square]
   \<and> (\<exists>s'. restart unit_square [0, 2, 1, 3]
         \<lparr>current = [0, 1, 2, 3], current_dist = 4, best_dist = 4,
          distance_history = [2 + 2 * sqrt 2, 4, 4, 4, 4, 4, 4], iteration = 6,
          stuck_counter = 59, is_global = True, local_optima_distances = [4]\<rparr> = Inr s'
       \<and> current s' = [0, 2, 1, 3]
       \<and> iteration s' = 0
       \<and> stuck_counter s' = 0
       \<and> distance_history s' = [current_dist s']
       \<and> is_global s' = True
       \<and> local_optima_distances s' = [4])"
proof -
  let ?A = "\<lparr>current = [0, 1, 2, 3], current_dist = 4, best_dist = 4,
          distance_history = [2 + 2 * sqrt 2, 4, 4, 4, 4, 4, 4], iteration = 6,
          stuck_counter = 59, is_global = True, local_optima_distances = [4]\<rparr>"
  from restart_resets_run[OF mset_0213, of ?A] obtain s' where
    "restart unit_square [0, 2, 1, 3] ?A = Inr s'" "current s' = [0, 2, 1, 3]"
    "iteration s' = 0" "stuck_counter s' = 0" "distance_history s' = [current_dist s']"
    "is_global s' = is_global ?A" "local_optima_distances s' = local_optima_distances ?A"
    by blast
  then have "\<exists>s'. restart unit_square [0, 2, 1, 3] ?A = Inr s'
       \<and> current s' = [0, 2, 1, 3]
       \<and> iteration s' = 0
       \<and> stuck_counter s' = 0
       \<and> distance_history s' = [current_dist s']
       \<and> is_global s' = True
       \<and> local_optima_distances s' = [4]"
    by simp
  with mset_0213 show ?thesis by blast
qed

subsection \<open>The unit square\<close>

text \<open>
  C2. The scenario on the code: the four corners of the unit square, the initial tour
  \<open>0, 2, 1, 3\<close> of length \<open>2 + 2 * sqrt 2\<close>, and a random source that draws the positions
  1 and 2 every time. The first round reaches the tour of length 4. After six frames the
  counter is at 59, the status is the global optimum and the registry has one entry. One
  frame later, with the tour and its length unchanged, the status is the local optimum:
  the length 4 is compared with the least entry of a registry that already holds it.
\<close>

theorem square_status_flips:
  "init_state unit_square [0, 2, 1, 3]
   = Inr \<lparr>current = [0, 2, 1, 3], current_dist = 2 + 2 * sqrt 2, best_dist = 2 + 2 * sqrt 2,
          distance_history = [2 + 2 * sqrt 2], iteration = 0, stuck_counter = 0,
          is_global = False, local_optima_distances = []\<rparr>
   \<and> updates unit_square (replicate 6 (\<lambda>k. (1, 2)))
     \<lparr>current = [0, 2, 1, 3], current_dist = 2 + 2 * sqrt 2, best_dist = 2 + 2 * sqrt 2,
          distance_history = [2 + 2 * sqrt 2], iteration = 0, stuck_counter = 0,
          is_global = False, local_optima_distances = []\<rparr>
   = Inr \<lparr>current = [0, 1, 2, 3], current_dist = 4, best_dist = 4,
          distance_history = [2 + 2 * sqrt 2, 4, 4, 4, 4, 4, 4], iteration = 6,
          stuck_counter = 59, is_global = True, local_optima_distances = [4]\<rparr>
   \<and> get_status \<lparr>current = [0, 1, 2, 3], current_dist = 4, best_dist = 4,
          distance_history = [2 + 2 * sqrt 2, 4, 4, 4, 4, 4, 4], iteration = 6,
          stuck_counter = 59, is_global = True, local_optima_distances = [4]\<rparr>
     = GlobalOptimum
   \<and> update unit_square (\<lambda>k. (1, 2))
     \<lparr>current = [0, 1, 2, 3], current_dist = 4, best_dist = 4,
          distance_history = [2 + 2 * sqrt 2, 4, 4, 4, 4, 4, 4], iteration = 6,
          stuck_counter = 59, is_global = True, local_optima_distances = [4]\<rparr>
   = Inr \<lparr>current = [0, 1, 2, 3], current_dist = 4, best_dist = 4,
          distance_history = [2 + 2 * sqrt 2, 4, 4, 4, 4, 4, 4, 4], iteration = 7,
          stuck_counter = 69, is_global = False, local_optima_distances = [4]\<rparr>
   \<and> get_status \<lparr>current = [0, 1, 2, 3], current_dist = 4, best_dist = 4,
          distance_history = [2 + 2 * sqrt 2, 4, 4, 4, 4, 4, 4, 4], iteration = 7,
          stuck_counter = 69, is_global = False, local_optima_distances = [4]\<rparr>
     = LocalOptimum"
proof -
  have f7: "update unit_square (\<lambda>k. (1, 2))
     \<lparr>current = [0, 1, 2, 3], current_dist = 4, best_dist = 4,
          distance_history = [2 + 2 * sqrt 2, 4, 4, 4, 4, 4, 4], iteration = 6,
          stuck_counter = 59, is_global = True, local_optima_distances = [4]\<rparr>
   = Inr \<lparr>current = [0, 1, 2, 3], current_dist = 4, best_dist = 4,
          distance_history = [2 + 2 * sqrt 2, 4, 4, 4, 4, 4, 4, 4], iteration = 7,
          stuck_counter = 69, is_global = False, local_optima_distances = [4]\<rparr>"
    using square_frame_still_stuck[of 59 "[2 + 2 * sqrt 2, 4, 4, 4, 4, 4, 4]" 6 True]
    by simp
  have g6: "get_status \<lparr>current = [0, 1, 2, 3], current_dist = 4, best_dist = 4,
          distance_history = [2 + 2 * sqrt 2, 4, 4, 4, 4, 4, 4], iteration = 6,
          stuck_counter = 59, is_global = True, local_optima_distances = [4]\<rparr>
     = GlobalOptimum"
    by (simp add: get_status_def STUCK_THRESHOLD_def)
  have g7: "get_status \<lparr>current = [0, 1, 2, 3], current_dist = 4, best_dist = 4,
          distance_history = [2 + 2 * sqrt 2, 4, 4, 4, 4, 4, 4, 4], iteration = 7,
          stuck_counter = 69, is_global = False, local_optima_distances = [4]\<rparr>
     = LocalOptimum"
    by (simp add: get_status_def STUCK_THRESHOLD_def)
  from square_init square_run_6 g6 f7 g7 show ?thesis by blast
qed

end
